theory Spec2Isabelle
  imports Complex_Main
begin

section \<open>Numbers\<close>

text \<open>
  The scripts compute with Python floats and with the float cells of the component tables.
  A cell is a finite number, one of the two infinities, or NaN. The operations \<open>fl_add\<close>,
  \<open>fl_mul\<close> and \<open>fl_div\<close> give the exact result of an operation on finite numbers and
  follow IEEE 754, as numpy applies it, on the special values: a division by zero does not
  raise but yields an infinity (NaN for 0/0), and NaN is absorbing. The rounding of an exact
  result to a float is a step of its own, defined below. The annuity function and the load
  rescaler are evaluated with every operation rounded; the cells that the other steps write
  are given by the exact value of the expression assigned.
\<close>

datatype fl = Fin real | PInf | NInf | NaN

fun fl_neg :: "fl \<Rightarrow> fl" where
  "fl_neg (Fin a) = Fin (- a)"
| "fl_neg PInf = NInf"
| "fl_neg NInf = PInf"
| "fl_neg NaN = NaN"

definition inf_of_sign :: "real \<Rightarrow> fl" where
  "inf_of_sign a = (if a = 0 then NaN else if 0 < a then PInf else NInf)"

fun fl_add :: "fl \<Rightarrow> fl \<Rightarrow> fl" where
  "fl_add NaN _ = NaN"
| "fl_add _ NaN = NaN"
| "fl_add (Fin a) (Fin b) = Fin (a + b)"
| "fl_add (Fin a) PInf = PInf"
| "fl_add (Fin a) NInf = NInf"
| "fl_add PInf (Fin b) = PInf"
| "fl_add NInf (Fin b) = NInf"
| "fl_add PInf PInf = PInf"
| "fl_add NInf NInf = NInf"
| "fl_add PInf NInf = NaN"
| "fl_add NInf PInf = NaN"

fun fl_mul :: "fl \<Rightarrow> fl \<Rightarrow> fl" where
  "fl_mul NaN _ = NaN"
| "fl_mul _ NaN = NaN"
| "fl_mul (Fin a) (Fin b) = Fin (a * b)"
| "fl_mul (Fin a) PInf = inf_of_sign a"
| "fl_mul (Fin a) NInf = inf_of_sign (- a)"
| "fl_mul PInf (Fin b) = inf_of_sign b"
| "fl_mul NInf (Fin b) = inf_of_sign (- b)"
| "fl_mul PInf PInf = PInf"
| "fl_mul NInf NInf = PInf"
| "fl_mul PInf NInf = NInf"
| "fl_mul NInf PInf = NInf"

text \<open>Division of table cells (numpy): \<open>x / 0\<close> is an infinity with the sign of \<open>x\<close>,
  \<open>0 / 0\<close> is NaN, nothing raises.\<close>

fun fl_div :: "fl \<Rightarrow> fl \<Rightarrow> fl" where
  "fl_div NaN _ = NaN"
| "fl_div _ NaN = NaN"
| "fl_div (Fin a) (Fin b) = (if b = 0 then inf_of_sign a else Fin (a / b))"
| "fl_div (Fin a) PInf = Fin 0"
| "fl_div (Fin a) NInf = Fin 0"
| "fl_div PInf (Fin b) = (if 0 \<le> b then PInf else NInf)"
| "fl_div NInf (Fin b) = (if 0 \<le> b then NInf else PInf)"
| "fl_div PInf PInf = NaN"
| "fl_div NInf NInf = NaN"
| "fl_div PInf NInf = NaN"
| "fl_div NInf PInf = NaN"

text \<open>The comparison \<open>x <= y\<close>: false as soon as one side is NaN.\<close>

fun fl_le :: "fl \<Rightarrow> fl \<Rightarrow> bool" where
  "fl_le NaN _ = False"
| "fl_le _ NaN = False"
| "fl_le (Fin a) (Fin b) = (a \<le> b)"
| "fl_le NInf _ = True"
| "fl_le _ PInf = True"
| "fl_le PInf _ = False"
| "fl_le _ NInf = False"

fun fl_less :: "fl \<Rightarrow> fl \<Rightarrow> bool" where
  "fl_less NaN _ = False"
| "fl_less _ NaN = False"
| "fl_less (Fin a) (Fin b) = (a < b)"
| "fl_less PInf _ = False"
| "fl_less _ NInf = False"
| "fl_less NInf _ = True"
| "fl_less _ PInf = True"

fun is_finite :: "fl \<Rightarrow> bool" where
  "is_finite (Fin a) = True"
| "is_finite _ = False"

subsection \<open>Rounding to a float\<close>

text \<open>
  A Python float is an IEEE 754 binary64 number: 53 significant bits, exponents from -1022
  to 1023, rounding to the nearest number with ties to the even significand. \<open>binade x\<close> is
  the power of two \<open>2^e\<close> with \<open>2^e \<le> |x| < 2^(e+1)\<close>, the exponent kept between -1022 and
  1023; the floats of that binade are the multiples of \<open>2^e / 2^52\<close>, and below \<open>2^-1022\<close>
  the subnormal numbers keep the spacing \<open>2^-1074\<close>. \<open>fl_nearest x\<close> is the multiple of
  the spacing nearest to \<open>x\<close>; a result beyond the largest float becomes an infinity.
\<close>

fun binade_up :: "nat \<Rightarrow> real \<Rightarrow> real" where
  "binade_up 0 x = 1"
| "binade_up (Suc k) x = (if x < 2 then 1 else 2 * binade_up k (x / 2))"

fun binade_down :: "nat \<Rightarrow> real \<Rightarrow> real" where
  "binade_down 0 x = 1"
| "binade_down (Suc k) x = (if 1 \<le> x then 1 else binade_down k (2 * x) / 2)"

definition binade :: "real \<Rightarrow> real" where
  "binade x = (if 1 \<le> \<bar>x\<bar> then binade_up 1023 \<bar>x\<bar> else binade_down 1022 \<bar>x\<bar>)"

definition round_half_even :: "real \<Rightarrow> int" where
  "round_half_even y =
     (let f = \<lfloor>y\<rfloor>; d = y - of_int f
      in if d < 1 / 2 then f else if 1 / 2 < d then f + 1 else if even f then f else f + 1)"

definition fl_nearest :: "real \<Rightarrow> real" where
  "fl_nearest x = (let ulp = binade x / 2 ^ 52 in of_int (round_half_even (x / ulp)) * ulp)"

definition max_float :: real where
  "max_float = (2 ^ 53 - 1) * 2 ^ 971"

fun fl_rnd :: "fl \<Rightarrow> fl" where
  "fl_rnd (Fin x) =
     (let y = fl_nearest x
      in if max_float < \<bar>y\<bar> then (if 0 < y then PInf else NInf) else Fin y)"
| "fl_rnd v = v"

text \<open>The float operations: the exact result, rounded.\<close>

definition float_add :: "fl \<Rightarrow> fl \<Rightarrow> fl" where
  "float_add a b = fl_rnd (fl_add a b)"

definition float_mul :: "fl \<Rightarrow> fl \<Rightarrow> fl" where
  "float_mul a b = fl_rnd (fl_mul a b)"

definition float_div :: "fl \<Rightarrow> fl \<Rightarrow> fl" where
  "float_div a b = fl_rnd (fl_div a b)"

section \<open>Errors\<close>

datatype error =
    KeyError
  | AttributeError
  | TypeError
  | ValueError
  | ZeroDivisionError
  | OverflowError
  | DuplicateName

section \<open>The annuity factor\<close>

text \<open>
  \<^verbatim>\<open>
  def annuity(n, r):
      if r > 0:
          return r / (1.0 - (1.0 + r) ** -n)
      else:
          return 1.0 / n
  \<close>
  The arguments are finite Python numbers, given by their value (the callers pass the
  literals 16 and 0.05). Every operation rounds its exact result to a float. A Python
  division by zero raises \<open>ZeroDivisionError\<close>, and \<open>**\<close> raises \<open>OverflowError\<close> when
  its result is beyond the largest float. The base \<open>1 + r\<close> of the power is at least 1 in
  the branch that takes it.

  Modelled from the spec: the power operator belongs to the runtime's mathematical library;
  it is taken to return the float nearest to the exact power.

  \<open>annuity_denominator n r\<close> is the subexpression \<open>1.0 - (1.0 + r) ** -n\<close>.
\<close>

definition annuity_denominator :: "real \<Rightarrow> real \<Rightarrow> error + real" where
  "annuity_denominator n r =
     (let p = fl_nearest (fl_nearest (1 + r) powr (- n))
      in if max_float < \<bar>p\<bar> then Inl OverflowError else Inr (fl_nearest (1 - p)))"

definition annuity :: "real \<Rightarrow> real \<Rightarrow> error + fl" where
  "annuity n r =
     (if r > 0 then
        (case annuity_denominator n r of
           Inl e \<Rightarrow> Inl e
         | Inr d \<Rightarrow> if d = 0 then Inl ZeroDivisionError else Inr (fl_rnd (Fin (r / d))))
      else
        (if n = 0 then Inl ZeroDivisionError else Inr (fl_rnd (Fin (1 / n)))))"

section \<open>The grid model\<close>

text \<open>
  The model is the set of component tables of the modelling library. A table is indexed by
  component name; a row maps attribute names to cells, as a row of a DataFrame does. An
  attribute that a row does not carry was never given a value (the library's default).
  Numeric cells are floats: the tables store the integers the scripts write (\<open>-1\<close>, \<open>8\<close>)
  in float columns.
\<close>

datatype val = Num fl | Str string | Bool bool | PyNone

type_synonym row = "string \<rightharpoonup> val"

type_synonym table = "(string \<times> row) list"

type_synonym series = "fl list"

record network =
  buses :: table
  generators :: table
  storage_units :: table
  links :: table
  loads :: table
  global_constraints :: table
  snapshots :: "string list"
  generators_t :: "string \<rightharpoonup> (string \<rightharpoonup> series)"
  loads_t_p_set :: "(string \<times> series) list"

text \<open>\<open>index t\<close> is \<open>t.index\<close>, the component names in table order.\<close>

definition index :: "table \<Rightarrow> string list" where
  "index t = map fst t"

text \<open>
  Modelled from the spec: component creation and removal belong to the modelling library,
  which is not part of the repository. \<open>n.add(class_name, name, **kwargs)\<close> appends one row
  holding the given attributes to the table of the class. Section 3 of the specification
  requires new names to be unique within their table and leaves the handling of a collision
  to the library; the model takes a collision as an error, the policy sections 4.4 and 7
  recommend. \<open>n.remove(class_name, name)\<close> deletes the row and the component's columns of
  the per-timestep tables.
\<close>

definition add_row :: "table \<Rightarrow> string \<Rightarrow> (string \<times> val) list \<Rightarrow> error + table" where
  "add_row t name kwargs =
     (if name \<in> set (index t) then Inl DuplicateName else Inr (t @ [(name, map_of kwargs)]))"

definition add :: "network \<Rightarrow> string \<Rightarrow> string \<Rightarrow> (string \<times> val) list \<Rightarrow> error + network" where
  "add n class_name name kwargs =
     (if class_name = ''StorageUnit'' then
        (case add_row (storage_units n) name kwargs of
           Inl e \<Rightarrow> Inl e | Inr t \<Rightarrow> Inr (n\<lparr>storage_units := t\<rparr>))
      else if class_name = ''Generator'' then
        (case add_row (generators n) name kwargs of
           Inl e \<Rightarrow> Inl e | Inr t \<Rightarrow> Inr (n\<lparr>generators := t\<rparr>))
      else if class_name = ''Link'' then
        (case add_row (links n) name kwargs of
           Inl e \<Rightarrow> Inl e | Inr t \<Rightarrow> Inr (n\<lparr>links := t\<rparr>))
      else if class_name = ''GlobalConstraint'' then
        (case add_row (global_constraints n) name kwargs of
           Inl e \<Rightarrow> Inl e | Inr t \<Rightarrow> Inr (n\<lparr>global_constraints := t\<rparr>))
      else Inl ValueError)"

definition remove_generator :: "network \<Rightarrow> string \<Rightarrow> error + network" where
  "remove_generator n name =
     (if name \<in> set (index (generators n)) then
        Inr (n\<lparr>generators := filter (\<lambda>(k, r). k \<noteq> name) (generators n),
               generators_t := (\<lambda>attr. map_option (\<lambda>df. df(name := None)) (generators_t n attr))\<rparr>)
      else Inl KeyError)"

text \<open>
  \<open>t.loc[mask, col] = v\<close>: the cell of column \<open>col\<close> becomes \<open>v\<close> in every row the boolean
  mask selects; the mask is aligned with the rows by position.
\<close>

definition loc_set :: "bool list \<Rightarrow> string \<Rightarrow> val \<Rightarrow> table \<Rightarrow> table" where
  "loc_set msk col v t =
     map (\<lambda>(m, (name, r)). if m then (name, r(col \<mapsto> v)) else (name, r)) (zip msk t)"

section \<open>The pipeline steps of pypsa_utilities.py\<close>

subsection \<open>Battery storage\<close>

text \<open>
  \<^verbatim>\<open>
  def add_battery_storage(network):
      max_hours = 8
      capital_cost_per_bus = annuity(16, 0.05) * 81e3 * (1 + 0.021) + max_hours * annuity(16, 0.05) * 236e3
      for bus in network.buses.index:
          network.add("StorageUnit", name=f"{bus} battery", bus=bus, carrier="batteries",
                      p_nom_extendable=True, max_hours=max_hours, efficiency_store=0.92,
                      efficiency_dispatch=0.92, capital_cost=capital_cost_per_bus,
                      cyclic_state_of_charge=True)
      return network
  \<close>
  The literal \<open>0.05\<close> is the float nearest to it. The value of \<open>annuity\<close> is a float; the
  cost is given by the exact value of the expression over it.
\<close>

definition battery_kwargs :: "string \<Rightarrow> real \<Rightarrow> fl \<Rightarrow> (string \<times> val) list" where
  "battery_kwargs bus max_hours capital_cost_per_bus =
     [(''bus'', Str bus),
      (''carrier'', Str ''batteries''),
      (''p_nom_extendable'', Bool True),
      (''max_hours'', Num (Fin max_hours)),
      (''efficiency_store'', Num (Fin 0.92)),
      (''efficiency_dispatch'', Num (Fin 0.92)),
      (''capital_cost'', Num capital_cost_per_bus),
      (''cyclic_state_of_charge'', Bool True)]"

fun battery_loop :: "real \<Rightarrow> fl \<Rightarrow> string list \<Rightarrow> network \<Rightarrow> error + network" where
  "battery_loop max_hours cost [] network = Inr network"
| "battery_loop max_hours cost (bus # rest) network =
     (case add network ''StorageUnit'' (bus @ '' battery'') (battery_kwargs bus max_hours cost) of
        Inl e \<Rightarrow> Inl e
      | Inr network' \<Rightarrow> battery_loop max_hours cost rest network')"

definition add_battery_storage :: "network \<Rightarrow> error + network" where
  "add_battery_storage network =
     (let max_hours = 8 in
      case annuity 16 (fl_nearest 0.05) of Inl e \<Rightarrow> Inl e | Inr a1 \<Rightarrow>
      case annuity 16 (fl_nearest 0.05) of Inl e \<Rightarrow> Inl e | Inr a2 \<Rightarrow>
        (let capital_cost_per_bus =
               fl_add (fl_mul (fl_mul a1 (Fin 81000)) (Fin (1 + 0.021)))
                      (fl_mul (fl_mul (Fin max_hours) a2) (Fin 236000))
         in battery_loop max_hours capital_cost_per_bus (index (buses network)) network))"

subsection \<open>The CO2 limit\<close>

text \<open>
  \<^verbatim>\<open>
  def add_co2_limit(network, co2_limit=1.0):
      base_co2_emissions = 1012028560.7495946
      network.add("GlobalConstraint", "CO2Limit", carrier_attribute="co2_emissions",
                  sense="<=", constant=co2_limit * base_co2_emissions)
      return network
  \<close>
\<close>

definition base_co2_emissions :: real where
  "base_co2_emissions = 1012028560.7495946"

definition add_co2_limit :: "network \<Rightarrow> fl \<Rightarrow> error + network" where
  "add_co2_limit network co2_limit =
     add network ''GlobalConstraint'' ''CO2Limit''
       [(''carrier_attribute'', Str ''co2_emissions''),
        (''sense'', Str ''<=''),
        (''constant'', Num (fl_mul co2_limit (Fin base_co2_emissions)))]"

subsection \<open>Hydro to pumped hydro, in place\<close>

text \<open>
  \<^verbatim>\<open>
  def convert_hydro_to_phs(network):
      hydro_mask = network.storage_units.carrier == "hydro"
      network.storage_units.loc[hydro_mask, "p_min_pu"] = -1
      network.storage_units.loc[hydro_mask, "efficiency_store"] = 0.9
      return network
  \<close>
\<close>

definition convert_hydro_to_phs :: "network \<Rightarrow> network" where
  "convert_hydro_to_phs network =
     (let hydro_mask = map (\<lambda>(name, r). r ''carrier'' = Some (Str ''hydro'')) (storage_units network);
          network1 = network\<lparr>storage_units :=
                       loc_set hydro_mask ''p_min_pu'' (Num (Fin (- 1))) (storage_units network)\<rparr>;
          network2 = network1\<lparr>storage_units :=
                       loc_set hydro_mask ''efficiency_store'' (Num (Fin 0.9)) (storage_units network1)\<rparr>
      in network2)"

subsection \<open>Extendable transmission\<close>

text \<open>
  \<^verbatim>\<open>
  def expand_transmission_capacity(network):
      network.links.loc[:, "p_nom_extendable"] = True
      return network
  \<close>
\<close>

definition expand_transmission_capacity :: "network \<Rightarrow> network" where
  "expand_transmission_capacity network =
     network\<lparr>links := loc_set (replicate (length (links network)) True)
                          ''p_nom_extendable'' (Bool True) (links network)\<rparr>"

subsection \<open>Rescaling the loads\<close>

text \<open>
  \<^verbatim>\<open>
  def rescale_loads(n):
      gtoe_electricity = {
      "AT0 0": 11.975, "BE0 0": 15.118, "BG0 0": 5.364, "CZ0 0": 12.211, "DE0 0": 89.121,
      "DK0 0": 0.57 * 5.929, "DK6 0": 0.43 * 5.929, "EE5 0": 1.516,
      "ES0 0": 0.98 * 39.8473, "ES3 0": 0.02 * 39.8473,
      "FI6 0": 8.476, "FR0 0": 70.668,
      "GB4 0": 0.98 * 51.032, "GB2 0": 0.02 * 51.032,
      "GR0 0": 8.002, "HR0 0": 3.054, "HU0 0": 8.583, "IE2 0": 4.972,
      "IT0 0": 0.96 * 49.571, "IT1 0": 0.04 * 49.571,
      "LT5 0": 1.512, "LU0 0": 1.180, "LV5 0": 2.320, "NL0 0": 19.456,
      "PL0 0": 35.345, "PT0 0": 7.941, "RO0 0": 11.551, "SE6 0": 14.514,
      "SI0 0": 2.510, "SK0 0": 4.362
      }
      gtoe_to_twh = 11.630
      target_twh = pd.Series(gtoe_electricity) * gtoe_to_twh
      load_country = n.loads['bus'].apply(lambda x: x.split('_')[-1])
      load_sums_by_country = n.loads_t.p_set.sum().groupby(load_country).sum() / 1e6
      scaling_factors = target_twh / load_sums_by_country
      scaling_factors = scaling_factors.dropna()
      for load in n.loads.index:
          country = load_country[load]
          if country in scaling_factors:
              n.loads_t.p_set[load] *= scaling_factors[country]
      return n
  \<close>
\<close>

definition gtoe_electricity :: "(string \<times> real) list" where
  "gtoe_electricity =
     [(''AT0 0'', 11.975), (''BE0 0'', 15.118), (''BG0 0'', 5.364), (''CZ0 0'', 12.211),
      (''DE0 0'', 89.121),
      (''DK0 0'', 0.57 * 5.929), (''DK6 0'', 0.43 * 5.929), (''EE5 0'', 1.516),
      (''ES0 0'', 0.98 * 39.8473), (''ES3 0'', 0.02 * 39.8473),
      (''FI6 0'', 8.476), (''FR0 0'', 70.668),
      (''GB4 0'', 0.98 * 51.032), (''GB2 0'', 0.02 * 51.032),
      (''GR0 0'', 8.002), (''HR0 0'', 3.054), (''HU0 0'', 8.583), (''IE2 0'', 4.972),
      (''IT0 0'', 0.96 * 49.571), (''IT1 0'', 0.04 * 49.571),
      (''LT5 0'', 1.512), (''LU0 0'', 1.180), (''LV5 0'', 2.320), (''NL0 0'', 19.456),
      (''PL0 0'', 35.345), (''PT0 0'', 7.941), (''RO0 0'', 11.551), (''SE6 0'', 14.514),
      (''SI0 0'', 2.510), (''SK0 0'', 4.362)]"

definition gtoe_to_twh :: real where
  "gtoe_to_twh = 11.630"

definition target_twh :: "(string \<times> fl) list" where
  "target_twh = map (\<lambda>(k, v). (k, Fin (v * gtoe_to_twh))) gtoe_electricity"

text \<open>\<open>s.split(c)\<close> for a one-character separator: the pieces between the occurrences
  of \<open>c\<close>, one more than there are occurrences.\<close>

fun split_sep :: "char \<Rightarrow> string \<Rightarrow> string list" where
  "split_sep c [] = [[]]"
| "split_sep c (x # xs) =
     (if x = c then [] # split_sep c xs
      else (case split_sep c xs of
              w # ws \<Rightarrow> (x # w) # ws
            | [] \<Rightarrow> [[x]]))"

text \<open>The function applied to each bus cell, \<open>lambda x: x.split('_')[-1]\<close>. A cell that is
  not a string has no \<open>split\<close>.\<close>

fun bus_country :: "val \<Rightarrow> error + string" where
  "bus_country (Str x) = Inr (last (split_sep CHR ''_'' x))"
| "bus_country _ = Inl AttributeError"

text \<open>
  Modelled from the spec: the tables and series of the data-frame library, which is not part
  of the repository. A series with unique labels is a finite map from labels to floats.
  The names of a component table are unique, and so are the column names of a per-timestep
  table; on tables with repeated names the definitions below take the first match. The
  load table always has the column \<open>bus\<close>; a row that carries no bus holds a missing value,
  which is a float. Sums skip NaN (\<open>skipna\<close>), and the sum of nothing is 0. Grouping a series
  by a key series looks the key up by label and leaves out the entries that have no key; a
  group exists when it has an entry. Arithmetic of two series goes label by label over the
  union of the labels, a label missing on one side giving NaN; \<open>dropna\<close> removes the NaN
  entries and nothing else. Reading a column that a table does not hold raises \<open>KeyError\<close>.
\<close>

fun load_country :: "table \<Rightarrow> error + (string \<times> string) list" where
  "load_country [] = Inr []"
| "load_country ((name, r) # t) =
     (case bus_country (case r ''bus'' of None \<Rightarrow> Num NaN | Some v \<Rightarrow> v) of
        Inl e \<Rightarrow> Inl e
      | Inr country \<Rightarrow>
          (case load_country t of
             Inl e \<Rightarrow> Inl e
           | Inr rest \<Rightarrow> Inr ((name, country) # rest)))"

fun is_nan :: "fl \<Rightarrow> bool" where
  "is_nan NaN = True"
| "is_nan _ = False"

definition nansum :: "fl list \<Rightarrow> fl" where
  "nansum xs = foldl fl_add (Fin 0) (filter (\<lambda>x. \<not> is_nan x) xs)"

text \<open>\<open>df.sum()\<close>: one sum per column.\<close>

definition column_sums :: "(string \<times> series) list \<Rightarrow> (string \<times> fl) list" where
  "column_sums df = map (\<lambda>(name, ts). (name, nansum ts)) df"

text \<open>\<open>s.groupby(key).sum()\<close>\<close>

definition groupby_sum :: "(string \<times> string) list \<Rightarrow> (string \<times> fl) list \<Rightarrow> string \<rightharpoonup> fl" where
  "groupby_sum key s country =
     (let members = filter (\<lambda>(name, x). map_of key name = Some country) s
      in if members = [] then None else Some (nansum (map snd members)))"

definition series_div :: "(string \<rightharpoonup> fl) \<Rightarrow> (string \<rightharpoonup> fl) \<Rightarrow> string \<rightharpoonup> fl" where
  "series_div a b k =
     (case (a k, b k) of
        (None, None) \<Rightarrow> None
      | (Some x, Some y) \<Rightarrow> Some (fl_div x y)
      | _ \<Rightarrow> Some NaN)"

definition dropna :: "(string \<rightharpoonup> fl) \<Rightarrow> string \<rightharpoonup> fl" where
  "dropna s k = (case s k of None \<Rightarrow> None | Some x \<Rightarrow> if is_nan x then None else Some x)"

text \<open>\<open>n.loads_t.p_set.sum().groupby(load_country).sum() / 1e6\<close>\<close>

definition load_sums_by_country ::
  "(string \<times> string) list \<Rightarrow> (string \<times> series) list \<Rightarrow> string \<rightharpoonup> fl" where
  "load_sums_by_country key p_set country =
     map_option (\<lambda>x. fl_div x (Fin 1000000)) (groupby_sum key (column_sums p_set) country)"

text \<open>\<open>df[load] *= f\<close>\<close>

definition scale_column :: "string \<Rightarrow> fl \<Rightarrow> (string \<times> series) list \<Rightarrow> error + (string \<times> series) list" where
  "scale_column load f df =
     (if load \<in> set (map fst df)
      then Inr (map (\<lambda>(name, ts). if name = load then (name, map (\<lambda>x. fl_mul x f) ts)
                                     else (name, ts)) df)
      else Inl KeyError)"

fun rescale_loop ::
  "(string \<times> string) list \<Rightarrow> (string \<rightharpoonup> fl) \<Rightarrow> string list \<Rightarrow> network \<Rightarrow> error + network" where
  "rescale_loop key scaling_factors [] n = Inr n"
| "rescale_loop key scaling_factors (load # rest) n =
     (case map_of key load of
        None \<Rightarrow> Inl KeyError
      | Some country \<Rightarrow>
          (case scaling_factors country of
             None \<Rightarrow> rescale_loop key scaling_factors rest n
           | Some f \<Rightarrow>
               (case scale_column load f (loads_t_p_set n) of
                  Inl e \<Rightarrow> Inl e
                | Inr df \<Rightarrow> rescale_loop key scaling_factors rest (n\<lparr>loads_t_p_set := df\<rparr>))))"

definition rescale_loads :: "network \<Rightarrow> error + network" where
  "rescale_loads n =
     (case load_country (loads n) of
        Inl e \<Rightarrow> Inl e
      | Inr key \<Rightarrow>
          (let scaling_factors =
                 dropna (series_div (map_of target_twh) (load_sums_by_country key (loads_t_p_set n)))
           in rescale_loop key scaling_factors (index (loads n)) n))"

section \<open>The retrofit of ChatGPT-TryOne.py\<close>

text \<open>
  \<^verbatim>\<open>
  EFF_TURBINE = 0.9
  EFF_PUMP = 0.85
  RESERVOIR_HOURS = 24*7
  CAPEX_PHS_PER_MW = 1e6
  CAPEX_RES_PER_MWH = 200e3
  \<close>
\<close>

definition EFF_TURBINE :: real where
  "EFF_TURBINE = 0.9"

definition EFF_PUMP :: real where
  "EFF_PUMP = 0.85"

definition RESERVOIR_HOURS :: real where
  "RESERVOIR_HOURS = 24 * 7"

definition CAPEX_PHS_PER_MW :: real where
  "CAPEX_PHS_PER_MW = 1000000"

definition CAPEX_RES_PER_MWH :: real where
  "CAPEX_RES_PER_MWH = 200000"

text \<open>A table has a column when one of its rows carries the attribute.\<close>

definition has_column :: "string \<Rightarrow> table \<Rightarrow> bool" where
  "has_column c t = list_ex (\<lambda>(name, r). r c \<noteq> None) t"

text \<open>
  \<^verbatim>\<open>
  def identify_hydro_generators(n):
      if 'carrier' in n.generators.columns:
          hydro = n.generators[n.generators['carrier'] == 'hydro'].copy()
      else:
          hydro = pd.DataFrame()
      return hydro
  \<close>
\<close>

definition identify_hydro_generators :: "network \<Rightarrow> table" where
  "identify_hydro_generators n =
     (if has_column ''carrier'' (generators n)
      then filter (\<lambda>(gid, r). r ''carrier'' = Some (Str ''hydro'')) (generators n)
      else [])"

text \<open>
  Python's \<open>float(x)\<close> on a cell: a number is itself, a boolean is 1 or 0, \<open>None\<close> raises
  \<open>TypeError\<close>; a string cell is text that is not a number and raises \<open>ValueError\<close>.
\<close>

fun py_float :: "val \<Rightarrow> error + fl" where
  "py_float (Num x) = Inr x"
| "py_float (Bool b) = Inr (Fin (if b then 1 else 0))"
| "py_float (Str s) = Inl ValueError"
| "py_float PyNone = Inl TypeError"

text \<open>
  \<^verbatim>\<open>
  def compute_inflow_timeseries(gen, n):
      if hasattr(n, "generators_t"):
          if 'p_max_pu' in n.generators_t.columns:
              return n.generators_t['p_max_pu'][gen.name] * gen.p_nom
          if 'p' in n.generators_t.columns:
              return n.generators_t['p'][gen.name]
      return pd.Series(0.0, index=n.snapshots)
  \<close>
  Modelled from the spec: a network always has \<open>generators_t\<close>, the modelling library's
  container of the per-timestep tables of the generators. The container is keyed by the
  time-varying attributes of the component and is read by attribute name
  (\<open>network.generators_t.p\<close> in Naime-1stBlock.py); a name that is not one of these
  attributes raises \<open>AttributeError\<close>. \<open>columns\<close> is not one of them, so the first test
  raises on every call and the rest of the function is never reached.
\<close>

definition generators_t_columns :: "network \<Rightarrow> error + string list" where
  "generators_t_columns n = Inl AttributeError"

definition compute_inflow_timeseries :: "string \<times> row \<Rightarrow> network \<Rightarrow> error + series" where
  "compute_inflow_timeseries gen n =
     (case generators_t_columns n of
        Inl e \<Rightarrow> Inl e
      | Inr columns \<Rightarrow>
          if ''p_max_pu'' \<in> set columns then
            (case generators_t n ''p_max_pu'' of
               None \<Rightarrow> Inl KeyError
             | Some df \<Rightarrow>
                 (case df (fst gen) of
                    None \<Rightarrow> Inl KeyError
                  | Some ts \<Rightarrow>
                      (case snd gen ''p_nom'' of
                         None \<Rightarrow> Inl AttributeError
                       | Some v \<Rightarrow>
                           (case py_float v of
                              Inl e \<Rightarrow> Inl e
                            | Inr p \<Rightarrow> Inr (map (\<lambda>x. fl_mul x p) ts)))))
          else if ''p'' \<in> set columns then
            (case generators_t n ''p'' of
               None \<Rightarrow> Inl KeyError
             | Some df \<Rightarrow>
                 (case df (fst gen) of
                    None \<Rightarrow> Inl KeyError
                  | Some ts \<Rightarrow> Inr ts))
          else Inr (replicate (length (snapshots n)) (Fin 0)))"

text \<open>The entries of the list \<open>created\<close> that the retrofit returns.\<close>

record created_item =
  c_gen_id :: string
  c_bus :: val
  c_p_nom :: fl
  c_storage :: string
  c_turbine :: string
  c_pump_link :: string

text \<open>\<open>str(k)\<close> for a natural number, as the f-string of the last message prints it.\<close>

fun str_nat :: "nat \<Rightarrow> string" where
  "str_nat k =
     (if k < 10 then [char_of (48 + k)]
      else str_nat (k div 10) @ [char_of (48 + k mod 10)])"

declare str_nat.simps [simp del]

definition skipped_message :: "string \<Rightarrow> string" where
  "skipped_message gid =
     ''Generator '' @ gid @ '' hat p_nom<=0, '' @ [CHR 0xFC] @ ''bersprungen.''"

definition none_found_message :: string where
  "none_found_message = ''Keine Hydro-Generatoren gefunden (Filter anpassen).''"

definition created_message :: "nat \<Rightarrow> string" where
  "created_message k = ''PHS f'' @ [CHR 0xFC] @ ''r '' @ str_nat k @ '' Standorte erzeugt.''"

text \<open>
  The body of the loop over the hydro generators. The state is the model, the list
  \<open>created\<close> and the lines printed so far.
  \<^verbatim>\<open>
      gen = gen_row
      bus = gen['bus']
      p_nom = float(gen.get('p_nom', 0.0))
      if p_nom <= 0:
          print(f"Generator {gid} hat p_nom<=0, uebersprungen.")
          continue
      inflow_ts = compute_inflow_timeseries(gen_row, n)
      e_nom = p_nom * RESERVOIR_HOURS
      base_name = f"PHS_{gid}"
      storage_name = f"{base_name}_store"
      turbine_name = f"{base_name}_turb"
      pump_name = f"{base_name}_pump"
      n.add("StorageUnit", name=storage_name, bus=bus, p_nom=None, e_nom=e_nom,
            efficiency_store=1.0, standing_loss=0.0, capital_cost=CAPEX_RES_PER_MWH * e_nom)
      n.add("Generator", name=turbine_name, bus=bus, p_nom=p_nom, marginal_cost=0.0,
            efficiency=EFF_TURBINE, p_nom_extendable=False, capital_cost=CAPEX_PHS_PER_MW * p_nom)
      n.add("Link", name=f"{base_name}_pump_link", bus0=bus, bus1=bus, p_nom=p_nom,
            efficiency=EFF_PUMP, capital_cost=CAPEX_PHS_PER_MW * p_nom)
      created.append({"gen_id": gid, "bus": bus, "p_nom": p_nom, "storage": storage_name,
                      "turbine": turbine_name, "pump_link": f"{base_name}_pump_link"})
      if remove_old:
          n.remove("Generator", gid)
  \<close>
\<close>

text \<open>The keyword arguments of the three \<open>n.add\<close> calls and the entry appended to \<open>created\<close>.\<close>

definition storage_kwargs :: "val \<Rightarrow> fl \<Rightarrow> (string \<times> val) list" where
  "storage_kwargs bus e_nom =
     [(''bus'', bus),
      (''p_nom'', PyNone),
      (''e_nom'', Num e_nom),
      (''efficiency_store'', Num (Fin 1.0)),
      (''standing_loss'', Num (Fin 0.0)),
      (''capital_cost'', Num (fl_mul (Fin CAPEX_RES_PER_MWH) e_nom))]"

definition turbine_kwargs :: "val \<Rightarrow> fl \<Rightarrow> (string \<times> val) list" where
  "turbine_kwargs bus p_nom =
     [(''bus'', bus),
      (''p_nom'', Num p_nom),
      (''marginal_cost'', Num (Fin 0.0)),
      (''efficiency'', Num (Fin EFF_TURBINE)),
      (''p_nom_extendable'', Bool False),
      (''capital_cost'', Num (fl_mul (Fin CAPEX_PHS_PER_MW) p_nom))]"

definition pump_link_kwargs :: "val \<Rightarrow> fl \<Rightarrow> (string \<times> val) list" where
  "pump_link_kwargs bus p_nom =
     [(''bus0'', bus),
      (''bus1'', bus),
      (''p_nom'', Num p_nom),
      (''efficiency'', Num (Fin EFF_PUMP)),
      (''capital_cost'', Num (fl_mul (Fin CAPEX_PHS_PER_MW) p_nom))]"

definition created_entry :: "string \<Rightarrow> val \<Rightarrow> fl \<Rightarrow> created_item" where
  "created_entry gid bus p_nom =
     \<lparr>c_gen_id = gid, c_bus = bus, c_p_nom = p_nom,
      c_storage = (''PHS_'' @ gid) @ ''_store'',
      c_turbine = (''PHS_'' @ gid) @ ''_turb'',
      c_pump_link = (''PHS_'' @ gid) @ ''_pump_link''\<rparr>"

type_synonym retrofit_state = "network \<times> created_item list \<times> string list"

definition retrofit_body :: "bool \<Rightarrow> string \<times> row \<Rightarrow> retrofit_state \<Rightarrow> error + retrofit_state" where
  "retrofit_body remove_old gen st =
     (case st of (n, created, out) \<Rightarrow>
      (case gen of (gid, gen_row) \<Rightarrow>
       (case gen_row ''bus'' of
          None \<Rightarrow> Inl KeyError
        | Some bus \<Rightarrow>
       (case py_float (case gen_row ''p_nom'' of None \<Rightarrow> Num (Fin 0.0) | Some v \<Rightarrow> v) of
          Inl e \<Rightarrow> Inl e
        | Inr p_nom \<Rightarrow>
       if fl_le p_nom (Fin 0) then Inr (n, created, out @ [skipped_message gid])
       else
       (case compute_inflow_timeseries gen n of
          Inl e \<Rightarrow> Inl e
        | Inr inflow_ts \<Rightarrow>
       (let e_nom = fl_mul p_nom (Fin RESERVOIR_HOURS);
            base_name = ''PHS_'' @ gid;
            storage_name = base_name @ ''_store'';
            turbine_name = base_name @ ''_turb'';
            pump_name = base_name @ ''_pump''
        in
       (case add n ''StorageUnit'' storage_name (storage_kwargs bus e_nom) of
          Inl e \<Rightarrow> Inl e
        | Inr n1 \<Rightarrow>
       (case add n1 ''Generator'' turbine_name (turbine_kwargs bus p_nom) of
          Inl e \<Rightarrow> Inl e
        | Inr n2 \<Rightarrow>
       (case add n2 ''Link'' (base_name @ ''_pump_link'') (pump_link_kwargs bus p_nom) of
          Inl e \<Rightarrow> Inl e
        | Inr n3 \<Rightarrow>
       (let created' = created @ [created_entry gid bus p_nom]
        in
        if remove_old then
          (case remove_generator n3 gid of
             Inl e \<Rightarrow> Inl e
           | Inr n4 \<Rightarrow> Inr (n4, created', out))
        else Inr (n3, created', out)))))))))))"

fun retrofit_loop :: "bool \<Rightarrow> table \<Rightarrow> retrofit_state \<Rightarrow> error + retrofit_state" where
  "retrofit_loop remove_old [] st = Inr st"
| "retrofit_loop remove_old (gen # rest) st =
     (case retrofit_body remove_old gen st of
        Inl e \<Rightarrow> Inl e
      | Inr st' \<Rightarrow> retrofit_loop remove_old rest st')"

text \<open>
  \<^verbatim>\<open>
  def retrofit_hydro_to_phs(n, marker_tag="retrofit_candidate", remove_old=True):
      hydro = identify_hydro_generators(n)
      if hydro.empty:
          print("Keine Hydro-Generatoren gefunden (Filter anpassen).")
          return
      created = []
      for gid, gen_row in hydro.iterrows():
          ...
      print(f"PHS fuer {len(created)} Standorte erzeugt.")
      return created
  \<close>
  The result is the mutated model, the returned value (\<open>None\<close> of the early return, or the
  list \<open>created\<close>) and the printed lines.
\<close>

definition retrofit_hydro_to_phs ::
  "network \<Rightarrow> string \<Rightarrow> bool \<Rightarrow> error + (network \<times> created_item list option \<times> string list)" where
  "retrofit_hydro_to_phs n marker_tag remove_old =
     (let hydro = identify_hydro_generators n in
      if hydro = [] then Inr (n, None, [none_found_message])
      else
        (case retrofit_loop remove_old hydro (n, [], []) of
           Inl e \<Rightarrow> Inl e
         | Inr (n', created, out) \<Rightarrow>
             Inr (n', Some created, out @ [created_message (length created)])))"

section \<open>A small model for concrete runs\<close>

text \<open>Two buses, a storage unit tagged \<open>hydro\<close>, one tagged \<open>Hydro\<close> and one link.\<close>

definition example_network :: network where
  "example_network =
     \<lparr>buses = [(''A'', Map.empty), (''B'', Map.empty)],
      generators = [],
      storage_units =
        [(''A hydro'', map_of [(''bus'', Str ''A''), (''carrier'', Str ''hydro''),
                               (''p_min_pu'', Num (Fin 0)), (''efficiency_store'', Num (Fin 1))]),
         (''B PHS'', map_of [(''bus'', Str ''B''), (''carrier'', Str ''Hydro''),
                             (''p_min_pu'', Num (Fin 0)), (''efficiency_store'', Num (Fin 1))])],
      links = [(''A-B'', map_of [(''bus0'', Str ''A''), (''bus1'', Str ''B''),
                                 (''p_nom_extendable'', Bool False)])],
      loads = [],
      global_constraints = [],
      snapshots = [],
      generators_t = Map.empty,
      loads_t_p_set = []\<rparr>"

text \<open>A model with two hydro generators, one of them without capacity, and a wind generator.\<close>

definition example_hydro_network :: network where
  "example_hydro_network =
     \<lparr>buses = [(''A'', Map.empty), (''B'', Map.empty)],
      generators =
        [(''G1'', map_of [(''bus'', Str ''A''), (''carrier'', Str ''hydro''), (''p_nom'', Num (Fin 100))]),
         (''G2'', map_of [(''bus'', Str ''B''), (''carrier'', Str ''hydro''), (''p_nom'', Num (Fin 0))]),
         (''G3'', map_of [(''bus'', Str ''B''), (''carrier'', Str ''wind''), (''p_nom'', Num (Fin 50))])],
      storage_units = [],
      links = [],
      loads = [],
      global_constraints = [],
      snapshots = [''t0'', ''t1''],
      generators_t = [''p_max_pu'' \<mapsto> [''G1'' \<mapsto> [Fin 0.5, Fin 1]]],
      loads_t_p_set = []\<rparr>"

definition idle_row :: row where
  "idle_row = map_of [(''bus'', Str ''B''), (''carrier'', Str ''hydro''), (''p_nom'', Num (Fin 0))]"

definition example_idle_network :: network where
  "example_idle_network = example_network\<lparr>generators := [(''G2'', idle_row)]\<rparr>"

text \<open>The same two models with other per-timestep tables.\<close>

definition example_dispatch_network :: network where
  "example_dispatch_network =
     example_hydro_network\<lparr>generators_t := [''p'' \<mapsto> [''G1'' \<mapsto> [Fin 7, Fin 8]]]\<rparr>"

definition example_idle_dispatch_network :: network where
  "example_idle_dispatch_network =
     example_idle_network\<lparr>generators_t := [''p'' \<mapsto> [''G2'' \<mapsto> [Fin 7, Fin 8]]]\<rparr>"

text \<open>A model with one load in Austria whose demand is zero at both snapshots.\<close>

definition example_zero_demand_network :: network where
  "example_zero_demand_network =
     \<lparr>buses = [(''AT0 0'', Map.empty)],
      generators = [],
      storage_units = [],
      links = [],
      loads = [(''L1'', map_of [(''bus'', Str ''AT0 0'')])],
      global_constraints = [],
      snapshots = [''t0'', ''t1''],
      generators_t = Map.empty,
      loads_t_p_set = [(''L1'', [Fin 0, Fin 0])]\<rparr>"


section \<open>Properties\<close>

subsection \<open>Rounding\<close>

lemma binade_up_pos: "0 < binade_up k x"
  by (induction k arbitrary: x) auto

lemma binade_down_pos: "0 < binade_down k x"
  by (induction k arbitrary: x) auto

lemma binade_pos: "0 < binade x"
  by (simp add: binade_def binade_up_pos binade_down_pos)

lemma binade_up_le: "1 \<le> x \<Longrightarrow> binade_up k x \<le> x"
proof (induction k arbitrary: x)
  case 0
  then show ?case by simp
next
  case (Suc k)
  show ?case
  proof (cases "x < 2")
    case True
    with Suc.prems show ?thesis by simp
  next
    case False
    then have "1 \<le> x / 2" by simp
    from Suc.IH[OF this] False show ?thesis by simp
  qed
qed

lemma binade_down_le: "1 \<le> x * 2 ^ k \<Longrightarrow> binade_down k x \<le> x"
proof (induction k arbitrary: x)
  case 0
  then show ?case by simp
next
  case (Suc k)
  show ?case
  proof (cases "1 \<le> x")
    case True
    then show ?thesis by simp
  next
    case False
    from Suc.prems have "1 \<le> (2 * x) * 2 ^ k" by (simp add: mult.assoc mult.commute)
    from Suc.IH[OF this] False show ?thesis by simp
  qed
qed

lemma binade_le:
  assumes "1 / 2 ^ 1022 \<le> \<bar>x\<bar>"
  shows "binade x \<le> \<bar>x\<bar>"
proof (cases "1 \<le> \<bar>x\<bar>")
  case True
  then show ?thesis by (simp add: binade_def binade_up_le)
next
  case False
  from assms have "1 \<le> \<bar>x\<bar> * 2 ^ 1022" by (simp add: field_simps)
  then have "binade_down 1022 \<bar>x\<bar> \<le> \<bar>x\<bar>" by (rule binade_down_le)
  with False show ?thesis by (simp add: binade_def)
qed

lemma round_half_even_error: "\<bar>of_int (round_half_even y) - y\<bar> \<le> 1 / 2"
proof -
  define f where "f = \<lfloor>y\<rfloor>"
  have "of_int f \<le> y" "y < of_int f + 1" unfolding f_def by linarith+
  then show ?thesis
    unfolding round_half_even_def Let_def f_def[symmetric]
    by (auto simp: abs_if)
qed

lemma fl_nearest_error_ulp: "\<bar>fl_nearest x - x\<bar> \<le> binade x / 2 ^ 53"
proof -
  define u where "u = binade x / 2 ^ 52"
  have u: "0 < u" using binade_pos[of x] by (simp add: u_def)
  define r where "r = (of_int (round_half_even (x / u)) :: real)"
  have f: "fl_nearest x = r * u"
    by (simp add: fl_nearest_def Let_def u_def r_def)
  have "fl_nearest x - x = (r - x / u) * u"
    using u by (simp add: f field_simps)
  then have "\<bar>fl_nearest x - x\<bar> = \<bar>r - x / u\<bar> * \<bar>u\<bar>"
    by (simp only: abs_mult)
  also have "\<dots> = \<bar>r - x / u\<bar> * u" using u by simp
  also have "\<dots> \<le> (1 / 2) * u"
    using round_half_even_error[of "x / u"] u unfolding r_def
    by (intro mult_right_mono) simp_all
  also have "\<dots> = binade x / 2 ^ 53" by (simp add: u_def)
  finally show ?thesis .
qed

lemma fl_nearest_error:
  assumes "1 / 2 ^ 1022 \<le> \<bar>x\<bar>"
  shows "\<bar>fl_nearest x - x\<bar> \<le> \<bar>x\<bar> / 2 ^ 53"
proof -
  have "\<bar>fl_nearest x - x\<bar> \<le> binade x / 2 ^ 53" by (rule fl_nearest_error_ulp)
  also have "\<dots> \<le> \<bar>x\<bar> / 2 ^ 53"
    using binade_le[OF assms] by (simp add: divide_right_mono)
  finally show ?thesis .
qed



lemma binade_down_eq:
  "1 \<le> x * 2 ^ e \<Longrightarrow> x * 2 ^ e < 2 \<Longrightarrow> e \<le> k \<Longrightarrow> binade_down k x = 1 / 2 ^ e"
proof (induction k arbitrary: e x)
  case 0
  then show ?case by simp
next
  case (Suc k)
  show ?case
  proof (cases "1 \<le> x")
    case True
    have "e = 0"
    proof (rule ccontr)
      assume "e \<noteq> 0"
      then obtain e' where e: "e = Suc e'" by (cases e) auto
      have "(1::real) \<le> 2 ^ e'" by simp
      with True have "1 * 1 \<le> x * 2 ^ e'" by (intro mult_mono) simp_all
      with Suc.prems(2) e show False by simp
    qed
    with True show ?thesis by simp
  next
    case False
    have "e \<noteq> 0" using False Suc.prems(1) by (cases e) auto
    then obtain e' where e: "e = Suc e'" by (cases e) auto
    from Suc.prems e have "1 \<le> (2 * x) * 2 ^ e'" "(2 * x) * 2 ^ e' < 2" "e' \<le> k"
      by (simp_all add: mult.assoc mult.left_commute mult.commute)
    from Suc.IH[OF this] False e show ?thesis by simp
  qed
qed


lemma binade_eq_down:
  assumes "1 \<le> \<bar>x\<bar> * 2 ^ e" and "\<bar>x\<bar> * 2 ^ e < 2" and "0 < e" and "e \<le> 1022"
  shows "binade x = 1 / 2 ^ e"
proof -
  from assms(3) obtain e' where e: "e = Suc e'" by (cases e) auto
  have "(1::real) \<le> 2 ^ e'" by simp
  then have "\<bar>x\<bar> * 1 \<le> \<bar>x\<bar> * 2 ^ e'" by (intro mult_left_mono) simp_all
  with assms(2) e have "\<not> 1 \<le> \<bar>x\<bar>" by simp
  then show ?thesis by (simp add: binade_def binade_down_eq[OF assms(1,2,4)])
qed


lemma fl_nearest_down:
  assumes "1 \<le> \<bar>x\<bar> * 2 ^ e" and "\<bar>x\<bar> * 2 ^ e < 2" and "0 < e" and "e \<le> 1022"
      and "round_half_even (x * (2 ^ e * 2 ^ 52)) = m"
  shows "fl_nearest x = of_int m / (2 ^ e * 2 ^ 52)"
  using assms(5) by (simp add: fl_nearest_def binade_eq_down[OF assms(1-4)] Let_def)

lemma fl_nearest_bounds:
  assumes "lo \<le> x" and "x \<le> hi" and "1 / 2 ^ 1022 \<le> lo"
  shows "lo * (1 - 1 / 2 ^ 53) \<le> fl_nearest x" and "fl_nearest x \<le> hi * (1 + 1 / 2 ^ 53)"
proof -
  have pos: "0 < lo" using assms(3) by (rule less_le_trans[rotated]) simp
  then have x: "0 < x" "\<bar>x\<bar> = x" using assms(1) by simp_all
  have "1 / 2 ^ 1022 \<le> \<bar>x\<bar>" using assms(1,3) x by linarith
  from fl_nearest_error[OF this] have e: "\<bar>fl_nearest x - x\<bar> \<le> x / 2 ^ 53" using x by simp
  have "lo * (1 - 1 / 2 ^ 53) \<le> x * (1 - 1 / 2 ^ 53)"
    using assms(1) by (intro mult_right_mono) simp_all
  also have "\<dots> = x - x / 2 ^ 53" by (simp add: algebra_simps)
  also have "\<dots> \<le> fl_nearest x" using e by linarith
  finally show "lo * (1 - 1 / 2 ^ 53) \<le> fl_nearest x" .
  have "fl_nearest x \<le> x + x / 2 ^ 53" using e by linarith
  also have "\<dots> = x * (1 + 1 / 2 ^ 53)" by (simp add: algebra_simps)
  also have "\<dots> \<le> hi * (1 + 1 / 2 ^ 53)"
    using assms(2) by (intro mult_right_mono) simp_all
  finally show "fl_nearest x \<le> hi * (1 + 1 / 2 ^ 53)" .
qed

lemma fl_rnd_Fin: "\<bar>fl_nearest x\<bar> \<le> max_float \<Longrightarrow> fl_rnd (Fin x) = Fin (fl_nearest x)"
  by (simp add: Let_def)

subsection \<open>The annuity factor\<close>

lemma max_float_ge_one: "1 \<le> max_float"
proof -
  have "(1::real) \<le> 2 ^ 971" by (rule one_le_power) simp
  moreover have "(1::real) \<le> 2 ^ 53 - 1" by simp
  ultimately have "1 * 1 \<le> (2 ^ 53 - 1) * (2 ^ 971 :: real)" by (intro mult_mono) simp_all
  then show ?thesis by (simp add: max_float_def)
qed

text \<open>The run of \<open>annuity(16, 0.05)\<close>, by bounds on every rounded step.\<close>

lemma annuity_16_005:
  "\<exists>d a. annuity_denominator 16 (fl_nearest 0.05) = Inr d \<and> 9 / 25 \<le> d \<and> d \<le> 17 / 25
       \<and> annuity 16 (fl_nearest 0.05) = Inr (Fin a) \<and> 1 / 20 \<le> a \<and> a \<le> 1 / 5
       \<and> 1 / 25 \<le> fl_nearest 0.05 \<and> fl_nearest 0.05 \<le> 3 / 50"
proof -
  define r where "r = fl_nearest 0.05"
  have r: "1 / 25 \<le> r" "r \<le> 3 / 50"
    using fl_nearest_bounds[of "0.05" "0.05" "0.05"] unfolding r_def by simp_all
  define b where "b = fl_nearest (1 + r)"
  have b: "103 / 100 \<le> b" "b \<le> 107 / 100"
    using fl_nearest_bounds[of "26 / 25" "1 + r" "53 / 50"] r unfolding b_def by simp_all
  have bpos: "0 < b" using b by simp
  have pw: "b powr (- 16) = 1 / b ^ 16"
    using bpos by (simp add: powr_minus_divide powr_numeral)
  have "(103 / 100) ^ 16 \<le> b ^ 16" using b by (intro power_mono) simp_all
  then have lo16: "(8 / 5 :: real) \<le> b ^ 16"
    by (rule order_trans[rotated]) (simp add: power_divide)
  have "b ^ 16 \<le> (107 / 100) ^ 16" using b bpos by (intro power_mono) simp_all
  then have hi16: "b ^ 16 \<le> (3 :: real)"
    by (rule order_trans) (simp add: power_divide)
  have pos16: "0 < b ^ 16" using bpos by simp
  have pe: "1 / 3 \<le> 1 / b ^ 16" "1 / b ^ 16 \<le> 5 / 8"
    using lo16 hi16 pos16 by (simp_all add: le_divide_eq divide_le_eq)
  define p where "p = fl_nearest (b powr (- 16))"
  have p: "33 / 100 \<le> p" "p \<le> 63 / 100"
    using fl_nearest_bounds[of "1 / 3" "1 / b ^ 16" "5 / 8"] pe unfolding p_def pw by simp_all
  have pmax: "\<not> max_float < \<bar>p\<bar>" using p max_float_ge_one by simp
  define d where "d = fl_nearest (1 - p)"
  have d: "9 / 25 \<le> d" "d \<le> 17 / 25"
    using fl_nearest_bounds[of "37 / 100" "1 - p" "67 / 100"] p unfolding d_def by simp_all
  have den: "annuity_denominator 16 r = Inr d"
    using pmax by (simp add: annuity_denominator_def Let_def b_def[symmetric] p_def[symmetric]
        d_def[symmetric])
  have dpos: "0 < d" using d by simp
  have q: "1 / 18 \<le> r / d" "r / d \<le> 1 / 6"
    using r d dpos by (simp_all add: field_simps)
  define a where "a = fl_nearest (r / d)"
  have a: "1 / 20 \<le> a" "a \<le> 1 / 5"
    using fl_nearest_bounds[of "1 / 18" "r / d" "1 / 6"] q unfolding a_def by simp_all
  have amax: "\<not> max_float < \<bar>a\<bar>" using a max_float_ge_one by simp
  have "annuity 16 r = Inr (Fin a)"
    using r dpos amax by (simp add: annuity_def den a_def[symmetric] Let_def)
  with den d a r show ?thesis unfolding r_def by blast
qed








subsection \<open>Setting a column\<close>

lemma length_loc_set: "length msk = length t \<Longrightarrow> length (loc_set msk col v t) = length t"
  by (simp add: loc_set_def)

lemma index_loc_set: "length msk = length t \<Longrightarrow> index (loc_set msk col v t) = index t"
  unfolding loc_set_def index_def
  by (induction msk t rule: list_induct2) (auto split: prod.splits)

lemma nth_loc_set:
  "length msk = length t \<Longrightarrow> i < length t \<Longrightarrow>
   loc_set msk col v t ! i =
     (if msk ! i then (fst (t ! i), (snd (t ! i))(col \<mapsto> v)) else t ! i)"
  by (simp add: loc_set_def split: prod.splits)

text \<open>
  Claim C7. After \<open>expand_transmission_capacity\<close> every link has \<open>p_nom_extendable\<close>
  true, whatever its carrier or capacity; every other attribute of every link is unchanged;
  the link table keeps its names and their order, and nothing else in the model changes.
\<close>

theorem expand_transmission_capacity_effect:
  "index (links (expand_transmission_capacity network)) = index (links network)
   \<and> (\<forall>i < length (links network).
        snd (links (expand_transmission_capacity network) ! i) ''p_nom_extendable'' = Some (Bool True)
        \<and> (\<forall>a. a \<noteq> ''p_nom_extendable'' \<longrightarrow>
              snd (links (expand_transmission_capacity network) ! i) a = snd (links network ! i) a))
   \<and> (expand_transmission_capacity network)\<lparr>links := links network\<rparr> = network"
  by (simp add: expand_transmission_capacity_def index_loc_set nth_loc_set)

theorem expand_transmission_capacity_effect_witness:
  "0 < length (links example_network)
   \<and> snd (links (expand_transmission_capacity example_network) ! 0) ''p_nom_extendable''
       = Some (Bool True)
   \<and> ''bus0'' \<noteq> ''p_nom_extendable''
   \<and> snd (links (expand_transmission_capacity example_network) ! 0) ''bus0'' = Some (Str ''A'')"
proof -
  have len: "0 < length (links example_network)"
    by (simp add: example_network_def)
  have ne: "''bus0'' \<noteq> ''p_nom_extendable''" by simp
  note t = expand_transmission_capacity_effect[of example_network,
             THEN conjunct2, THEN conjunct1, rule_format, OF len]
  have a: "snd (links (expand_transmission_capacity example_network) ! 0) ''p_nom_extendable''
          = Some (Bool True)"
    by (rule t[THEN conjunct1])
  have "snd (links (expand_transmission_capacity example_network) ! 0) ''bus0''
          = snd (links example_network ! 0) ''bus0''"
    by (rule t[THEN conjunct2, rule_format, OF ne])
  then have b: "snd (links (expand_transmission_capacity example_network) ! 0) ''bus0'' = Some (Str ''A'')"
    by (simp add: example_network_def)
  from len a ne b show ?thesis by (intro conjI)
qed

text \<open>
  Claim C5. After \<open>convert_hydro_to_phs\<close> every storage unit whose carrier is exactly
  \<open>hydro\<close> has \<open>p_min_pu\<close> equal to -1 and \<open>efficiency_store\<close> equal to 0.9; every
  storage unit with another carrier is unchanged in every attribute; no component is added
  or removed.
\<close>

theorem convert_hydro_to_phs_effect:
  "index (storage_units (convert_hydro_to_phs network)) = index (storage_units network)
   \<and> (\<forall>i < length (storage_units network).
        (snd (storage_units network ! i) ''carrier'' = Some (Str ''hydro'') \<longrightarrow>
           snd (storage_units (convert_hydro_to_phs network) ! i) ''p_min_pu'' = Some (Num (Fin (- 1)))
           \<and> snd (storage_units (convert_hydro_to_phs network) ! i) ''efficiency_store'' = Some (Num (Fin 0.9)))
        \<and> (snd (storage_units network ! i) ''carrier'' \<noteq> Some (Str ''hydro'') \<longrightarrow>
           storage_units (convert_hydro_to_phs network) ! i = storage_units network ! i))
   \<and> (convert_hydro_to_phs network)\<lparr>storage_units := storage_units network\<rparr> = network"
  by (simp add: convert_hydro_to_phs_def Let_def index_loc_set nth_loc_set length_loc_set split: prod.splits)

theorem convert_hydro_to_phs_effect_witness:
  "1 < length (storage_units example_network)
   \<and> snd (storage_units example_network ! 0) ''carrier'' = Some (Str ''hydro'')
   \<and> snd (storage_units (convert_hydro_to_phs example_network) ! 0) ''p_min_pu''
       = Some (Num (Fin (- 1)))
   \<and> snd (storage_units (convert_hydro_to_phs example_network) ! 0) ''efficiency_store''
       = Some (Num (Fin 0.9))
   \<and> snd (storage_units example_network ! 1) ''carrier'' \<noteq> Some (Str ''hydro'')
   \<and> storage_units (convert_hydro_to_phs example_network) ! 1 = storage_units example_network ! 1"
proof -
  have len0: "0 < length (storage_units example_network)"
    and len1: "1 < length (storage_units example_network)"
    by (simp_all add: example_network_def)
  have h0: "snd (storage_units example_network ! 0) ''carrier'' = Some (Str ''hydro'')"
    by (simp add: example_network_def)
  have h1: "snd (storage_units example_network ! 1) ''carrier'' \<noteq> Some (Str ''hydro'')"
    by (simp add: example_network_def)
  note t = convert_hydro_to_phs_effect[of example_network, THEN conjunct2, THEN conjunct1, rule_format]
  note a = t[OF len0, THEN conjunct1, rule_format, OF h0]
  note b = t[OF len1, THEN conjunct2, rule_format, OF h1]
  show ?thesis
    by (intro conjI len1 h0 a[THEN conjunct1] a[THEN conjunct2] h1 b)
qed

text \<open>
  Claim C9. \<open>add_co2_limit\<close> adds exactly one global constraint, named \<open>CO2Limit\<close>, on
  the carrier attribute \<open>co2_emissions\<close> with sense \<open><=\<close> and with the constant
  \<open>co2_limit * 1012028560.7495946\<close>; the fraction 0 gives the bound 0 and the fraction 1
  gives the baseline. The name must not be taken already.
\<close>

theorem add_co2_limit_adds_one:
  assumes "''CO2Limit'' \<notin> set (index (global_constraints network))"
  shows "add_co2_limit network co2_limit =
           Inr (network\<lparr>global_constraints := global_constraints network @
                  [(''CO2Limit'',
                    map_of [(''carrier_attribute'', Str ''co2_emissions''),
                            (''sense'', Str ''<=''),
                            (''constant'', Num (fl_mul co2_limit (Fin 1012028560.7495946)))])]\<rparr>)
       \<and> fl_mul (Fin 0) (Fin 1012028560.7495946) = Fin 0
       \<and> fl_mul (Fin 1) (Fin 1012028560.7495946) = Fin 1012028560.7495946"
  using assms by (simp add: add_co2_limit_def add_def add_row_def base_co2_emissions_def)

theorem add_co2_limit_adds_one_witness:
  "''CO2Limit'' \<notin> set (index (global_constraints example_network))
   \<and> add_co2_limit example_network (Fin 0) =
       Inr (example_network\<lparr>global_constraints :=
              [(''CO2Limit'',
                map_of [(''carrier_attribute'', Str ''co2_emissions''),
                        (''sense'', Str ''<=''),
                        (''constant'', Num (Fin 0))])]\<rparr>)"
proof -
  have h: "''CO2Limit'' \<notin> set (index (global_constraints example_network))"
    by (simp add: example_network_def index_def)
  have g: "global_constraints example_network = []"
    by (simp add: example_network_def)
  note t = add_co2_limit_adds_one[OF h, of "Fin 0"]
  have "add_co2_limit example_network (Fin 0) =
       Inr (example_network\<lparr>global_constraints :=
              [(''CO2Limit'',
                map_of [(''carrier_attribute'', Str ''co2_emissions''),
                        (''sense'', Str ''<=''),
                        (''constant'', Num (Fin 0))])]\<rparr>)"
    using t[THEN conjunct1] t[THEN conjunct2, THEN conjunct1] by (simp only: g append_Nil)
  with h show ?thesis by (rule conjI)
qed

subsection \<open>Battery storage\<close>

lemma add_storage_unit_fresh:
  "name \<notin> set (index (storage_units n)) \<Longrightarrow>
   add n ''StorageUnit'' name kwargs = Inr (n\<lparr>storage_units := storage_units n @ [(name, map_of kwargs)]\<rparr>)"
  by (simp add: add_def add_row_def)

lemma battery_loop_appends:
  assumes "distinct bs"
      and "\<forall>b \<in> set bs. b @ '' battery'' \<notin> set (index (storage_units n))"
  shows "battery_loop mh c bs n =
           Inr (n\<lparr>storage_units := storage_units n @
                  map (\<lambda>b. (b @ '' battery'', map_of (battery_kwargs b mh c))) bs\<rparr>)"
  using assms
proof (induction bs arbitrary: n)
  case Nil
  then show ?case by simp
next
  case (Cons b bs)
  let ?n' = "n\<lparr>storage_units := storage_units n @ [(b @ '' battery'', map_of (battery_kwargs b mh c))]\<rparr>"
  have fresh: "b @ '' battery'' \<notin> set (index (storage_units n))"
    using Cons.prems(2) by simp
  have step: "add n ''StorageUnit'' (b @ '' battery'') (battery_kwargs b mh c) = Inr ?n'"
    using fresh by (rule add_storage_unit_fresh)
  have d: "distinct bs" using Cons.prems(1) by simp
  have f: "\<forall>x \<in> set bs. x @ '' battery'' \<notin> set (index (storage_units ?n'))"
  proof
    fix x assume x: "x \<in> set bs"
    then have "x \<noteq> b" using Cons.prems(1) by auto
    moreover have "x @ '' battery'' \<notin> set (index (storage_units n))"
      using Cons.prems(2) x by simp
    ultimately show "x @ '' battery'' \<notin> set (index (storage_units ?n'))"
      by (simp add: index_def)
  qed
  have "battery_loop mh c (b # bs) n = battery_loop mh c bs ?n'"
    by (simp only: battery_loop.simps step sum.case)
  also have "\<dots> = Inr (?n'\<lparr>storage_units := storage_units ?n' @
                  map (\<lambda>b. (b @ '' battery'', map_of (battery_kwargs b mh c))) bs\<rparr>)"
    using d f by (rule Cons.IH)
  finally show ?case by simp
qed

text \<open>
  Claim C8. After \<open>add_battery_storage\<close> there is, for every bus, exactly one new
  storage unit, named by the bus identifier followed by \<open>" battery"\<close>, with carrier
  \<open>batteries\<close>, extendable nominal power, \<open>max_hours\<close> 8, both efficiencies 0.92, cyclic
  state of charge, and the capital cost
  \<open>annuity(16, 0.05) * 81e3 * (1 + 0.021) + 8 * annuity(16, 0.05) * 236e3\<close>; the number of
  new units with carrier \<open>batteries\<close> is the number of buses. The bus names are distinct
  and none of the new names is taken already.
\<close>

theorem add_battery_storage_effect:
  assumes "distinct (index (buses network))"
      and "\<forall>bus \<in> set (index (buses network)).
             bus @ '' battery'' \<notin> set (index (storage_units network))"
  shows "\<exists>a new.
           annuity 16 (fl_nearest 0.05) = Inr (Fin a)
         \<and> new = map (\<lambda>bus. (bus @ '' battery'',
                         map_of [(''bus'', Str bus),
                                 (''carrier'', Str ''batteries''),
                                 (''p_nom_extendable'', Bool True),
                                 (''max_hours'', Num (Fin 8)),
                                 (''efficiency_store'', Num (Fin 0.92)),
                                 (''efficiency_dispatch'', Num (Fin 0.92)),
                                 (''capital_cost'',
                                    Num (Fin (a * 81000 * (1 + 0.021) + 8 * a * 236000))),
                                 (''cyclic_state_of_charge'', Bool True)]))
                     (index (buses network))
         \<and> add_battery_storage network =
             Inr (network\<lparr>storage_units := storage_units network @ new\<rparr>)
         \<and> length (filter (\<lambda>(name, r). r ''carrier'' = Some (Str ''batteries'')) new)
             = length (buses network)"
proof -
  from annuity_16_005 obtain a where ann: "annuity 16 (fl_nearest 0.05) = Inr (Fin a)"
    by blast
  let ?c = "Fin (a * 81000 * (1 + 0.021) + 8 * a * 236000)"
  let ?new = "map (\<lambda>b. (b @ '' battery'', map_of (battery_kwargs b 8 ?c))) (index (buses network))"
  have run: "add_battery_storage network = battery_loop 8 ?c (index (buses network)) network"
    unfolding add_battery_storage_def Let_def
    by (simp only: ann sum.case fl_mul.simps fl_add.simps)
  have res: "add_battery_storage network =
               Inr (network\<lparr>storage_units := storage_units network @ ?new\<rparr>)"
    unfolding run using assms by (rule battery_loop_appends)
  have cnt: "length (filter (\<lambda>(name, r). r ''carrier'' = Some (Str ''batteries'')) ?new)
               = length (buses network)"
    by (simp add: battery_kwargs_def index_def filter_map o_def)
  show ?thesis
    apply (rule exI[of _ a], rule exI[of _ ?new])
    apply (intro conjI)
       apply (rule ann)
      apply (simp only: battery_kwargs_def)
     apply (rule res)
    apply (rule cnt)
    done
qed

theorem add_battery_storage_effect_witness:
  "distinct (index (buses example_network))
   \<and> ''A battery'' \<notin> set (index (storage_units example_network))
   \<and> ''B battery'' \<notin> set (index (storage_units example_network))
   \<and> (\<exists>n'. add_battery_storage example_network = Inr n'
          \<and> index (storage_units n') = [''A hydro'', ''B PHS'', ''A battery'', ''B battery''])"
proof -
  have d: "distinct (index (buses example_network))"
    by (simp add: example_network_def index_def)
  have f: "\<forall>bus \<in> set (index (buses example_network)).
             bus @ '' battery'' \<notin> set (index (storage_units example_network))"
    by (simp add: example_network_def index_def)
  from add_battery_storage_effect[OF d f] obtain a new where
    new: "new = map (\<lambda>bus. (bus @ '' battery'',
                         map_of [(''bus'', Str bus),
                                 (''carrier'', Str ''batteries''),
                                 (''p_nom_extendable'', Bool True),
                                 (''max_hours'', Num (Fin 8)),
                                 (''efficiency_store'', Num (Fin 0.92)),
                                 (''efficiency_dispatch'', Num (Fin 0.92)),
                                 (''capital_cost'',
                                    Num (Fin (a * 81000 * (1 + 0.021) + 8 * a * 236000))),
                                 (''cyclic_state_of_charge'', Bool True)]))
                     (index (buses example_network))"
    and run: "add_battery_storage example_network =
             Inr (example_network\<lparr>storage_units := storage_units example_network @ new\<rparr>)"
    by (elim exE conjE)
  have "index (storage_units (example_network\<lparr>storage_units := storage_units example_network @ new\<rparr>))
          = [''A hydro'', ''B PHS'', ''A battery'', ''B battery'']"
    unfolding new by (simp add: example_network_def index_def)
  with run have ex: "\<exists>n'. add_battery_storage example_network = Inr n'
          \<and> index (storage_units n') = [''A hydro'', ''B PHS'', ''A battery'', ''B battery'']"
    by (intro exI conjI)
  have a1: "''A battery'' \<notin> set (index (storage_units example_network))"
    and a2: "''B battery'' \<notin> set (index (storage_units example_network))"
    by (simp_all add: example_network_def index_def)
  show ?thesis by (intro conjI d a1 a2 ex)
qed

subsection \<open>The retrofit: skipped generators\<close>

lemma retrofit_body_skip:
  assumes "gen_row ''bus'' = Some b" and "gen_row ''p_nom'' = Some (Num p)" and "fl_le p (Fin 0)"
  shows "retrofit_body remove_old (gid, gen_row) (n, created, out)
           = Inr (n, created, out @ [skipped_message gid])"
  using assms by (simp add: retrofit_body_def)

lemma retrofit_loop_all_skipped:
  assumes "\<forall>(gid, r) \<in> set gs. r ''bus'' \<noteq> None \<and> (\<exists>p. r ''p_nom'' = Some (Num p) \<and> fl_le p (Fin 0))"
  shows "retrofit_loop remove_old gs (n, created, out)
           = Inr (n, created, out @ map (\<lambda>(gid, r). skipped_message gid) gs)"
  using assms
proof (induction gs arbitrary: out)
  case Nil
  then show ?case by simp
next
  case (Cons g gs)
  obtain gid r where g: "g = (gid, r)" by (cases g)
  from Cons.prems g obtain b p where
    "r ''bus'' = Some b" "r ''p_nom'' = Some (Num p)" "fl_le p (Fin 0)"
    by auto
  then have step: "retrofit_body remove_old (gid, r) (n, created, out)
           = Inr (n, created, out @ [skipped_message gid])"
    by (rule retrofit_body_skip)
  have rest: "\<forall>(gid, r) \<in> set gs. r ''bus'' \<noteq> None \<and> (\<exists>p. r ''p_nom'' = Some (Num p) \<and> fl_le p (Fin 0))"
    using Cons.prems by simp
  show ?case
    unfolding g by (simp add: step Cons.IH[OF rest])
qed

text \<open>
  Claim C6. In \<open>retrofit_hydro_to_phs\<close> a hydro generator whose nominal power is not
  positive is skipped with a diagnostic line: the model and the list \<open>created\<close> are left as
  they are, nothing is raised, and the loop goes on with the remaining generators. On a model
  without hydro generators the function leaves the model as it is and returns nothing. A
  model whose hydro generators all lack capacity is returned unchanged with an empty list.
\<close>

theorem retrofit_skips_non_positive:
  "(gen_row ''bus'' = Some b \<longrightarrow> gen_row ''p_nom'' = Some (Num p) \<longrightarrow> fl_le p (Fin 0) \<longrightarrow>
      retrofit_loop remove_old ((gid, gen_row) # rest) (n, created, out)
        = retrofit_loop remove_old rest (n, created, out @ [skipped_message gid]))
   \<and> (identify_hydro_generators n = [] \<longrightarrow>
        retrofit_hydro_to_phs n marker_tag remove_old = Inr (n, None, [none_found_message]))
   \<and> (identify_hydro_generators n \<noteq> [] \<longrightarrow>
        (\<forall>(g, r) \<in> set (identify_hydro_generators n).
            r ''bus'' \<noteq> None \<and> (\<exists>q. r ''p_nom'' = Some (Num q) \<and> fl_le q (Fin 0))) \<longrightarrow>
        retrofit_hydro_to_phs n marker_tag remove_old
          = Inr (n, Some [],
                 map (\<lambda>(g, r). skipped_message g) (identify_hydro_generators n)
                   @ [created_message 0]))"
proof (intro conjI impI)
  assume "gen_row ''bus'' = Some b" "gen_row ''p_nom'' = Some (Num p)" "fl_le p (Fin 0)"
  then have "retrofit_body remove_old (gid, gen_row) (n, created, out)
           = Inr (n, created, out @ [skipped_message gid])"
    by (rule retrofit_body_skip)
  then show "retrofit_loop remove_old ((gid, gen_row) # rest) (n, created, out)
        = retrofit_loop remove_old rest (n, created, out @ [skipped_message gid])"
    by simp
next
  assume "identify_hydro_generators n = []"
  then show "retrofit_hydro_to_phs n marker_tag remove_old = Inr (n, None, [none_found_message])"
    by (simp add: retrofit_hydro_to_phs_def)
next
  assume ne: "identify_hydro_generators n \<noteq> []"
    and all: "\<forall>(g, r) \<in> set (identify_hydro_generators n).
            r ''bus'' \<noteq> None \<and> (\<exists>q. r ''p_nom'' = Some (Num q) \<and> fl_le q (Fin 0))"
  have "retrofit_loop remove_old (identify_hydro_generators n) (n, [], [])
          = Inr (n, [], [] @ map (\<lambda>(g, r). skipped_message g) (identify_hydro_generators n))"
    using all by (rule retrofit_loop_all_skipped)
  then show "retrofit_hydro_to_phs n marker_tag remove_old
          = Inr (n, Some [],
                 map (\<lambda>(g, r). skipped_message g) (identify_hydro_generators n)
                   @ [created_message 0])"
    using ne by (simp add: retrofit_hydro_to_phs_def)
qed

theorem retrofit_skips_non_positive_witness:
  "retrofit_loop True [(''G2'', idle_row)] (example_network, [], [])
     = Inr (example_network, [], [skipped_message ''G2''])
   \<and> retrofit_hydro_to_phs example_network ''retrofit_candidate'' True
     = Inr (example_network, None, [none_found_message])
   \<and> retrofit_hydro_to_phs example_idle_network ''retrofit_candidate'' True
     = Inr (example_idle_network, Some [], [skipped_message ''G2'', created_message 0])"
proof -
  have b: "idle_row ''bus'' = Some (Str ''B'')"
    and p: "idle_row ''p_nom'' = Some (Num (Fin 0))"
    and le: "fl_le (Fin 0) (Fin 0)"
    by (simp_all add: idle_row_def)
  have one: "retrofit_loop True [(''G2'', idle_row)] (example_network, [], [])
     = Inr (example_network, [], [skipped_message ''G2''])"
    using retrofit_skips_non_positive[where gen_row = idle_row and b = "Str ''B''" and p = "Fin 0"
        and remove_old = True and gid = "''G2''" and rest = "[]" and n = example_network
        and created = "[]" and out = "[]", THEN conjunct1, rule_format, OF b p le]
    by simp
  have e: "identify_hydro_generators example_network = []"
    by (simp add: identify_hydro_generators_def example_network_def has_column_def)
  have two: "retrofit_hydro_to_phs example_network ''retrofit_candidate'' True
     = Inr (example_network, None, [none_found_message])"
    by (rule retrofit_skips_non_positive[where n = example_network,
          THEN conjunct2, THEN conjunct1, rule_format, OF e])
  have h: "identify_hydro_generators example_idle_network = [(''G2'', idle_row)]"
    by (simp add: identify_hydro_generators_def example_idle_network_def has_column_def idle_row_def)
  have ne: "identify_hydro_generators example_idle_network \<noteq> []"
    by (simp add: h)
  have all: "\<forall>(g, r) \<in> set (identify_hydro_generators example_idle_network).
            r ''bus'' \<noteq> None \<and> (\<exists>q. r ''p_nom'' = Some (Num q) \<and> fl_le q (Fin 0))"
    by (simp add: h b p)
  have three: "retrofit_hydro_to_phs example_idle_network ''retrofit_candidate'' True
     = Inr (example_idle_network, Some [], [skipped_message ''G2'', created_message 0])"
    using retrofit_skips_non_positive[where n = example_idle_network
        and marker_tag = "''retrofit_candidate''" and remove_old = True,
        THEN conjunct2, THEN conjunct2, THEN mp, OF ne, THEN mp, OF all]
    by (simp add: h)
  from one two three show ?thesis by (intro conjI)
qed

subsection \<open>The retrofit: generators with capacity\<close>

text \<open>The body of the loop, with the call of \<open>compute_inflow_timeseries\<close> evaluated: it
  skips the generator or it raises, and it never reaches the first \<open>n.add\<close>.\<close>

lemma retrofit_body_eq:
  "retrofit_body remove_old (gid, gen_row) (n, created, out) =
     (case gen_row ''bus'' of
        None \<Rightarrow> Inl KeyError
      | Some bus \<Rightarrow>
          (case py_float (case gen_row ''p_nom'' of None \<Rightarrow> Num (Fin 0) | Some v \<Rightarrow> v) of
             Inl e \<Rightarrow> Inl e
           | Inr p_nom \<Rightarrow>
               if fl_le p_nom (Fin 0) then Inr (n, created, out @ [skipped_message gid])
               else Inl AttributeError))"
  by (simp add: retrofit_body_def compute_inflow_timeseries_def generators_t_columns_def
        split: option.splits sum.splits)

lemma fl_less_not_le: "fl_less (Fin 0) P \<Longrightarrow> \<not> fl_le P (Fin 0)"
  by (cases P) auto

lemma retrofit_body_positive_raises:
  assumes "gen_row ''p_nom'' = Some (Num P)" and "fl_less (Fin 0) P"
  shows "\<exists>e. retrofit_body remove_old (gid, gen_row) st = Inl e"
proof -
  obtain n created out where st: "st = (n, created, out)" by (cases st)
  from assms(2) have "\<not> fl_le P (Fin 0)" by (rule fl_less_not_le)
  with assms(1) show ?thesis
    unfolding st retrofit_body_eq by (simp split: option.splits)
qed

lemma retrofit_loop_positive_raises:
  assumes "(gid, gen_row) \<in> set gs"
      and "gen_row ''p_nom'' = Some (Num P)" and "fl_less (Fin 0) P"
  shows "\<exists>e. retrofit_loop remove_old gs st = Inl e"
  using assms(1)
proof (induction gs arbitrary: st)
  case Nil
  then show ?case by simp
next
  case (Cons g gs)
  show ?case
  proof (cases "retrofit_body remove_old g st")
    case (Inl e)
    then show ?thesis by simp
  next
    case (Inr st')
    have "g \<noteq> (gid, gen_row)"
    proof
      assume "g = (gid, gen_row)"
      with retrofit_body_positive_raises[where gen_row = gen_row and P = P and remove_old = remove_old
          and gid = gid and st = st, OF assms(2,3)] Inr
      show False by simp
    qed
    with Cons.prems have "(gid, gen_row) \<in> set gs" by simp
    from Cons.IH[OF this, of st'] Inr show ?thesis by simp
  qed
qed

text \<open>
  Claim C3. The claim does not hold of the code: the loop calls
  \<open>compute_inflow_timeseries\<close> for every hydro generator with nominal power \<open>P > 0\<close> before
  it adds anything, and the call raises. So on a model that has such a generator
  \<open>retrofit_hydro_to_phs\<close> raises: no storage unit with \<open>e_nom = P * 168\<close> and no turbine
  with \<open>p_nom = P\<close> is made, and the source generator is not removed.
\<close>

theorem retrofit_hydro_to_phs_raises:
  assumes mem: "(gid, gen_row) \<in> set (generators n)"
      and car: "gen_row ''carrier'' = Some (Str ''hydro'')"
      and p: "gen_row ''p_nom'' = Some (Num P)"
      and pos: "fl_less (Fin 0) P"
  shows "\<exists>e. retrofit_hydro_to_phs n marker_tag remove_old = Inl e"
proof -
  from mem car have col: "has_column ''carrier'' (generators n)"
    by (auto simp: has_column_def list_ex_iff)
  with mem car have h: "(gid, gen_row) \<in> set (identify_hydro_generators n)"
    by (simp add: identify_hydro_generators_def)
  then have ne: "identify_hydro_generators n \<noteq> []" by auto
  from retrofit_loop_positive_raises[OF h p pos] obtain e where
    "retrofit_loop remove_old (identify_hydro_generators n) (n, [], []) = Inl e"
    by blast
  with ne have "retrofit_hydro_to_phs n marker_tag remove_old = Inl e"
    by (simp add: retrofit_hydro_to_phs_def)
  then show ?thesis by blast
qed

lemma example_hydro_raises:
  "retrofit_hydro_to_phs example_hydro_network ''retrofit_candidate'' rm = Inl AttributeError"
  by (simp add: retrofit_hydro_to_phs_def identify_hydro_generators_def has_column_def
        example_hydro_network_def retrofit_body_eq)

theorem retrofit_hydro_to_phs_raises_witness:
  "(''G1'', map_of [(''bus'', Str ''A''), (''carrier'', Str ''hydro''), (''p_nom'', Num (Fin 100))])
     \<in> set (generators example_hydro_network)
   \<and> fl_less (Fin 0) (Fin 100)
   \<and> (\<exists>e. retrofit_hydro_to_phs example_hydro_network ''retrofit_candidate'' True = Inl e)
   \<and> retrofit_hydro_to_phs example_hydro_network ''retrofit_candidate'' True = Inl AttributeError
   \<and> retrofit_hydro_to_phs example_hydro_network ''retrofit_candidate'' False = Inl AttributeError"
proof -
  let ?row = "map_of [(''bus'', Str ''A''), (''carrier'', Str ''hydro''), (''p_nom'', Num (Fin 100))]"
  have mem: "(''G1'', ?row) \<in> set (generators example_hydro_network)"
    by (simp add: example_hydro_network_def)
  have car: "?row ''carrier'' = Some (Str ''hydro'')" by simp
  have p: "?row ''p_nom'' = Some (Num (Fin 100))" by simp
  have pos: "fl_less (Fin 0) (Fin 100)" by simp
  have ex: "\<exists>e. retrofit_hydro_to_phs example_hydro_network ''retrofit_candidate'' True = Inl e"
    by (rule retrofit_hydro_to_phs_raises[OF mem car p pos])
  show ?thesis
    by (rule conjI[OF mem conjI[OF pos conjI[OF ex
          conjI[OF example_hydro_raises example_hydro_raises]]]])
qed

subsection \<open>The retrofit: independence of the per-timestep tables\<close>

lemma retrofit_loop_independent:
  "(case retrofit_loop remove_old gs (n1, created, out) of
      Inl e \<Rightarrow> retrofit_loop remove_old gs (n2, created, out) = Inl e
    | Inr (n1', created', out') \<Rightarrow>
        n1' = n1 \<and> retrofit_loop remove_old gs (n2, created, out) = Inr (n2, created', out'))"
proof (induction gs arbitrary: created out)
  case Nil
  show ?case by simp
next
  case (Cons g gs)
  obtain gid gen_row where g: "g = (gid, gen_row)" by (cases g)
  show ?case
  proof (cases "retrofit_body remove_old (gid, gen_row) (n1, created, out)")
    case (Inl e)
    then have "retrofit_body remove_old (gid, gen_row) (n2, created, out) = Inl e"
      unfolding retrofit_body_eq by (auto split: option.splits sum.splits if_splits)
    with Inl show ?thesis unfolding g by simp
  next
    case (Inr st')
    then have a: "st' = (n1, created, out @ [skipped_message gid])"
      and b: "retrofit_body remove_old (gid, gen_row) (n2, created, out)
                = Inr (n2, created, out @ [skipped_message gid])"
      unfolding retrofit_body_eq by (auto split: option.splits sum.splits if_splits)
    from Cons.IH[of created "out @ [skipped_message gid]"] Inr a b
    show ?thesis unfolding g by (auto split: sum.splits)
  qed
qed

lemma identify_hydro_generators_cong:
  "generators n1 = generators n2 \<Longrightarrow> identify_hydro_generators n1 = identify_hydro_generators n2"
  by (simp add: identify_hydro_generators_def)

text \<open>
  Claim C10. Two runs of \<open>retrofit_hydro_to_phs\<close> on models with the same static generator
  table (the per-timestep tables and everything else may differ) end in the same way: both
  raise the same exception, or both return the same value and print the same lines and
  leave their model as it was. So the two runs create the same components, namely none,
  and nothing of the per-timestep tables reaches the result.
\<close>

theorem retrofit_independent_of_time_series:
  assumes g: "generators n1 = generators n2"
  shows "(case retrofit_hydro_to_phs n1 marker_tag remove_old of
            Inl e \<Rightarrow> retrofit_hydro_to_phs n2 marker_tag remove_old = Inl e
          | Inr (n1', ret, out) \<Rightarrow>
              n1' = n1
            \<and> retrofit_hydro_to_phs n2 marker_tag remove_old = Inr (n2, ret, out))"
proof (cases "identify_hydro_generators n1 = []")
  case True
  with identify_hydro_generators_cong[OF g] have "identify_hydro_generators n2 = []"
    by simp
  with True show ?thesis by (simp add: retrofit_hydro_to_phs_def)
next
  case False
  let ?h = "identify_hydro_generators n1"
  have h2: "identify_hydro_generators n2 = ?h"
    using identify_hydro_generators_cong[OF g] by simp
  show ?thesis
  proof (cases "retrofit_loop remove_old ?h (n1, [], [])")
    case (Inl e)
    with retrofit_loop_independent[where remove_old = remove_old and gs = "?h" and ?n1.0 = n1
        and created = "[]" and out = "[]" and ?n2.0 = n2]
    have "retrofit_loop remove_old ?h (n2, [], []) = Inl e" by simp
    with Inl False h2 show ?thesis by (simp add: retrofit_hydro_to_phs_def)
  next
    case (Inr st')
    obtain n1' created' out' where st': "st' = (n1', created', out')" by (cases st')
    with Inr retrofit_loop_independent[where remove_old = remove_old and gs = "?h" and ?n1.0 = n1
        and created = "[]" and out = "[]" and ?n2.0 = n2]
    have "n1' = n1" "retrofit_loop remove_old ?h (n2, [], []) = Inr (n2, created', out')"
      by simp_all
    with Inr st' False h2 show ?thesis by (simp add: retrofit_hydro_to_phs_def)
  qed
qed

theorem retrofit_independent_of_time_series_witness:
  "generators example_hydro_network = generators example_dispatch_network
   \<and> generators_t example_hydro_network \<noteq> generators_t example_dispatch_network
   \<and> retrofit_hydro_to_phs example_hydro_network ''retrofit_candidate'' True = Inl AttributeError
   \<and> retrofit_hydro_to_phs example_dispatch_network ''retrofit_candidate'' True = Inl AttributeError
   \<and> generators example_idle_network = generators example_idle_dispatch_network
   \<and> generators_t example_idle_network \<noteq> generators_t example_idle_dispatch_network
   \<and> retrofit_hydro_to_phs example_idle_network ''retrofit_candidate'' True
       = Inr (example_idle_network, Some [], [skipped_message ''G2'', created_message 0])
   \<and> retrofit_hydro_to_phs example_idle_dispatch_network ''retrofit_candidate'' True
       = Inr (example_idle_dispatch_network, Some [], [skipped_message ''G2'', created_message 0])"
proof -
  have g1: "generators example_hydro_network = generators example_dispatch_network"
    by (simp add: example_dispatch_network_def)
  have "generators_t example_hydro_network ''p'' \<noteq> generators_t example_dispatch_network ''p''"
    by (simp add: example_dispatch_network_def example_hydro_network_def)
  then have t1: "generators_t example_hydro_network \<noteq> generators_t example_dispatch_network"
    by (rule contrapos_nn) (rule arg_cong[where f = "\<lambda>f. f ''p''"])
  have r1: "retrofit_hydro_to_phs example_hydro_network ''retrofit_candidate'' True
              = Inl AttributeError"
    by (rule example_hydro_raises)
  have r2: "retrofit_hydro_to_phs example_dispatch_network ''retrofit_candidate'' True
              = Inl AttributeError"
    using retrofit_independent_of_time_series[OF g1, of "''retrofit_candidate''" True]
    by (simp only: r1 sum.case)
  have g2: "generators example_idle_network = generators example_idle_dispatch_network"
    by (simp add: example_idle_dispatch_network_def)
  have "generators_t example_idle_network ''p'' \<noteq> generators_t example_idle_dispatch_network ''p''"
    by (simp add: example_idle_dispatch_network_def example_idle_network_def example_network_def)
  then have t2: "generators_t example_idle_network \<noteq> generators_t example_idle_dispatch_network"
    by (rule contrapos_nn) (rule arg_cong[where f = "\<lambda>f. f ''p''"])
  have r3: "retrofit_hydro_to_phs example_idle_network ''retrofit_candidate'' True
       = Inr (example_idle_network, Some [], [skipped_message ''G2'', created_message 0])"
    by (simp add: retrofit_hydro_to_phs_def identify_hydro_generators_def has_column_def
          example_idle_network_def idle_row_def retrofit_body_eq)
  have r4: "retrofit_hydro_to_phs example_idle_dispatch_network ''retrofit_candidate'' True
       = Inr (example_idle_dispatch_network, Some [], [skipped_message ''G2'', created_message 0])"
    using retrofit_independent_of_time_series[OF g2, of "''retrofit_candidate''" True]
    by (simp only: r3 sum.case prod.case)
  show ?thesis
    by (rule conjI[OF g1 conjI[OF t1 conjI[OF r1 conjI[OF r2
          conjI[OF g2 conjI[OF t2 conjI[OF r3 r4]]]]]]])
qed

subsection \<open>Rescaling the loads\<close>

text \<open>
  Claim C1. A country with a target whose aggregated demand is zero is not skipped: dividing
  the target by zero gives the factor \<open>+inf\<close>, which \<open>dropna\<close> keeps, and the loop multiplies
  the country's series by it. On the model with one load in Austria and the demand 0 at both
  snapshots the function returns with NaN written at both snapshots.
\<close>

theorem rescale_loads_zero_demand_writes_nan:
  "load_country (loads example_zero_demand_network) = Inr [(''L1'', ''AT0 0'')]
   \<and> load_sums_by_country [(''L1'', ''AT0 0'')] (loads_t_p_set example_zero_demand_network) ''AT0 0''
       = Some (Fin 0)
   \<and> rescale_loads example_zero_demand_network
       = Inr (example_zero_demand_network\<lparr>loads_t_p_set := [(''L1'', [NaN, NaN])]\<rparr>)"
  by (simp add: example_zero_demand_network_def rescale_loads_def load_sums_by_country_def
        groupby_sum_def column_sums_def nansum_def series_div_def dropna_def
        target_twh_def gtoe_electricity_def gtoe_to_twh_def scale_column_def index_def
        inf_of_sign_def)

















end
